theory Spec2Isabelle
  imports Main "HOL-Library.Word"
begin

section \<open>pcap2csv: one row of text per packet of a capture\<close>

text \<open>
  The script \<^verbatim>\<open>src/pcap2csv.py\<close> has three functions of its own:
  \<^verbatim>\<open>render_csv_row\<close>, \<^verbatim>\<open>pcap2csv\<close> and \<^verbatim>\<open>main\<close>. Reading the capture container,
  dissecting a packet and producing the summaries are done by the libraries scapy
  and PyShark. Their results are the inputs of this development:
  \<^item> a packet is the chain of layers that scapy's \<^verbatim>\<open>Ether(pkt_sc)\<close> returns;
  \<^item> a capture is the list of packets that \<^verbatim>\<open>RawPcapReader\<close> yields;
  \<^item> the provider is the list of summaries that \<^verbatim>\<open>pyshark.FileCapture\<close> has after
    \<^verbatim>\<open>load_packets()\<close> and \<^verbatim>\<open>reset()\<close>.
\<close>

subsection \<open>Data\<close>

type_synonym bytes = "8 word list"

text \<open>
  A layer of a dissected packet, with the fields the script reads and the bytes
  the layer itself builds to: \<open>IP proto hdr\<close> has \<^verbatim>\<open>fields['proto'] = proto\<close>,
  \<open>UDP sport dport hdr\<close> and \<open>TCP sport dport hdr\<close> carry the two ports, and
  \<open>Other load\<close> is a layer of any other class (ARP, ICMP, DNS, Raw, Padding). A
  packet is the chain from the outermost layer inwards: the \<^verbatim>\<open>payload\<close> of a layer
  is the rest of the list.
\<close>

datatype layer =
    Ether bytes
  | IP nat bytes
  | UDP nat nat bytes
  | TCP nat nat bytes
  | Other bytes

type_synonym packet = "layer list"

text \<open>
  A PyShark packet summary (\<^verbatim>\<open>only_summaries=True\<close>): the columns of tshark's
  one-line output, all of them text.
\<close>

record summary =
  no :: string
  time :: string
  protocol :: string
  info :: string
  source :: string
  destination :: string
  length_sh :: string

text \<open>The exceptions of the Python run that the model follows.\<close>

datatype error = IndexError | UnboundLocalError | FileNotFoundError

subsection \<open>Python primitives\<close>

text \<open>\<^verbatim>\<open>str(n)\<close> of a non-negative integer: its decimal digits.\<close>

definition digit :: "nat \<Rightarrow> char" where
  "digit n = ''0123456789'' ! n"

fun str_nat :: "nat \<Rightarrow> string" where
  "str_nat n = (if n < 10 then [digit n] else str_nat (n div 10) @ [digit (n mod 10)])"

declare str_nat.simps [simp del]

text \<open>\<^verbatim>\<open>bytes.hex()\<close>: two lowercase hexadecimal digits for each byte.\<close>

definition hexdigit :: "nat \<Rightarrow> char" where
  "hexdigit n = ''0123456789abcdef'' ! n"

definition hex :: "bytes \<Rightarrow> string" where
  "hex bs = concat (map (\<lambda>b. [hexdigit (unat b div 16), hexdigit (unat b mod 16)]) bs)"

subsection \<open>The scapy operations the script uses\<close>

text \<open>
  \<^verbatim>\<open>pkt[IP]\<close>, \<^verbatim>\<open>pkt[UDP]\<close>, \<^verbatim>\<open>pkt[TCP]\<close>: the first layer of that class in the
  chain, with its fields and its payload; \<open>None\<close> where \<^verbatim>\<open>getlayer\<close> finds no
  such layer (\<^verbatim>\<open>__getitem__\<close> then raises \<^verbatim>\<open>IndexError\<close>).
\<close>

fun getlayer_IP :: "packet \<Rightarrow> (nat \<times> packet) option" where
  "getlayer_IP [] = None"
| "getlayer_IP (IP proto hdr # payload) = Some (proto, payload)"
| "getlayer_IP (l # payload) = getlayer_IP payload"

fun getlayer_UDP :: "packet \<Rightarrow> (nat \<times> nat \<times> packet) option" where
  "getlayer_UDP [] = None"
| "getlayer_UDP (UDP sport dport hdr # payload) = Some (sport, dport, payload)"
| "getlayer_UDP (l # payload) = getlayer_UDP payload"

fun getlayer_TCP :: "packet \<Rightarrow> (nat \<times> nat \<times> packet) option" where
  "getlayer_TCP [] = None"
| "getlayer_TCP (TCP sport dport hdr # payload) = Some (sport, dport, payload)"
| "getlayer_TCP (l # payload) = getlayer_TCP payload"

text \<open>\<^verbatim>\<open>bytes(pkt)\<close>: every layer of the chain built, outermost first.\<close>

fun self_build :: "layer \<Rightarrow> bytes" where
  "self_build (Ether hdr) = hdr"
| "self_build (IP proto hdr) = hdr"
| "self_build (UDP sport dport hdr) = hdr"
| "self_build (TCP sport dport hdr) = hdr"
| "self_build (Other load) = load"

definition build :: "packet \<Rightarrow> bytes" where
  "build pkt = concat (map self_build pkt)"

subsection \<open>\<^verbatim>\<open>render_csv_row\<close>\<close>

text \<open>
  The local variables that the \<^verbatim>\<open>if\<close>/\<^verbatim>\<open>elif\<close>/\<^verbatim>\<open>else\<close> on the protocol
  assigns. The \<^verbatim>\<open>else\<close> branch assigns neither port: the two stay unbound, which is
  \<open>None\<close> here.
\<close>

record locals =
  l4_payload_bytes :: bytes
  l4_proto_name :: string
  l4_sport :: "nat option"
  l4_dport :: "nat option"

definition l4_locals :: "packet \<Rightarrow> error + locals" where
  "l4_locals pkt_sc =
     (case getlayer_IP pkt_sc of
        None \<Rightarrow> Inl IndexError
      | Some (proto, ip_payload) \<Rightarrow>
          if proto = 17 then
            (case getlayer_UDP ip_payload of
               None \<Rightarrow> Inl IndexError
             | Some (sport, dport, payload) \<Rightarrow>
                 Inr \<lparr>l4_payload_bytes = build payload, l4_proto_name = ''UDP'',
                      l4_sport = Some sport, l4_dport = Some dport\<rparr>)
          else if proto = 6 then
            (case getlayer_TCP ip_payload of
               None \<Rightarrow> Inl IndexError
             | Some (sport, dport, payload) \<Rightarrow>
                 Inr \<lparr>l4_payload_bytes = build payload, l4_proto_name = ''TCP'',
                      l4_sport = Some sport, l4_dport = Some dport\<rparr>)
          else
            Inr \<lparr>l4_payload_bytes = [0], l4_proto_name = ''???'',
                 l4_sport = None, l4_dport = None\<rparr>)"

text \<open>
  The whole function: the line it prints to the csv file, or the exception it
  raises. The line is the format string
  \<^verbatim>\<open>'{0}|{1}|{2}({3})|{4}|{5}:{6}|{7}:{8}|{9}|{10}'\<close> filled with its eleven
  arguments. Reading an unbound local raises \<^verbatim>\<open>UnboundLocalError\<close>; the arguments
  of \<^verbatim>\<open>format\<close> are evaluated left to right, so \<^verbatim>\<open>l4_sport\<close> is the first one
  read.
\<close>

definition render_csv_row :: "summary \<Rightarrow> packet \<Rightarrow> error + string" where
  "render_csv_row pkt_sh pkt_sc =
     (case l4_locals pkt_sc of
        Inl e \<Rightarrow> Inl e
      | Inr v \<Rightarrow>
          (case l4_sport v of
             None \<Rightarrow> Inl UnboundLocalError
           | Some sport \<Rightarrow>
               (case l4_dport v of
                  None \<Rightarrow> Inl UnboundLocalError
                | Some dport \<Rightarrow>
                    Inr (no pkt_sh @ ''|'' @ time pkt_sh @ ''|'' @
                         protocol pkt_sh @ ''('' @ l4_proto_name v @ '')'' @ ''|'' @
                         info pkt_sh @ ''|'' @
                         source pkt_sh @ '':'' @ str_nat sport @ ''|'' @
                         destination pkt_sh @ '':'' @ str_nat dport @ ''|'' @
                         length_sh pkt_sh @ ''|'' @
                         hex (l4_payload_bytes v)))))"

subsection \<open>\<^verbatim>\<open>pcap2csv\<close>\<close>

text \<open>
  The state of the loop: the lines printed to the csv file so far, the counter
  \<^verbatim>\<open>frame_num\<close>, the summaries the provider has not handed out yet, and the
  exception that left the loop, if one did.
\<close>

record run =
  rows :: "string list"
  frame_num :: nat
  unread :: "summary list"
  raised :: "error option"

text \<open>
  The \<^verbatim>\<open>for\<close> loop over the capture. \<^verbatim>\<open>next_packet()\<close> on an exhausted provider
  raises \<^verbatim>\<open>StopIteration\<close>, which the loop catches with \<^verbatim>\<open>break\<close>. The counter
  is incremented before \<^verbatim>\<open>render_csv_row\<close> is called; any exception of
  \<^verbatim>\<open>render_csv_row\<close> leaves the loop and the function.
\<close>

fun pcap2csv_loop :: "packet list \<Rightarrow> run \<Rightarrow> run" where
  "pcap2csv_loop [] st = st"
| "pcap2csv_loop (pkt_scapy # rest) st =
     (case unread st of
        [] \<Rightarrow> st
      | pkt_pyshark # later \<Rightarrow>
          (case render_csv_row pkt_pyshark pkt_scapy of
             Inl e \<Rightarrow> st\<lparr>frame_num := frame_num st + 1, unread := later, raised := Some e\<rparr>
           | Inr line \<Rightarrow>
               pcap2csv_loop rest
                 (st\<lparr>rows := rows st @ [line], frame_num := frame_num st + 1,
                     unread := later\<rparr>)))"

definition run0 :: "summary list \<Rightarrow> run" where
  "run0 sums = \<lparr>rows = [], frame_num = 0, unread = sums, raised = None\<rparr>"

text \<open>
  Files and the two output streams. A file holds either binary data or the lines
  printed to it. The two readers are the libraries' and are parameters:
  \<open>reader\<close> gives the packets of a capture file, \<open>provider\<close> its summaries.
  \<^verbatim>\<open>open(out_csv, 'w')\<close> creates the output file, or empties it; it is closed
  with the rows written so far also when an exception leaves the \<^verbatim>\<open>with\<close> block.
  The count is printed only when the loop ends without one. The two paths are
  taken to differ, as \<^verbatim>\<open>main\<close> guarantees.
\<close>

datatype content = Data bytes | Text "string list"

record world =
  fs :: "string \<rightharpoonup> content"
  stdout :: "string list"
  stderr :: "string list"

definition pcap2csv ::
  "(content \<Rightarrow> packet list) \<Rightarrow> (content \<Rightarrow> summary list) \<Rightarrow> string \<Rightarrow> string \<Rightarrow> world \<Rightarrow>
   world \<times> error option" where
  "pcap2csv reader provider in_pcap out_csv w =
     (case fs w in_pcap of
        None \<Rightarrow> (w, Some FileNotFoundError)
      | Some f \<Rightarrow>
          let st = pcap2csv_loop (reader f) (run0 (provider f));
              w' = w\<lparr>fs := (fs w)(out_csv \<mapsto> Text (rows st))\<rparr>
          in (case raised st of
                Some e \<Rightarrow> (w', Some e)
              | None \<Rightarrow>
                  (w'\<lparr>stdout := stdout w' @ [str_nat (frame_num st) @ '' packets read'']\<rparr>,
                   None)))"

subsection \<open>\<^verbatim>\<open>main\<close>\<close>

record args =
  pcap :: string
  csv :: string

text \<open>
  How the process ends: \<^verbatim>\<open>sys.exit(n)\<close> or the normal return (status 0), or an
  exception that nothing caught.
\<close>

datatype outcome = Exited int | Uncaught error

definition main ::
  "(content \<Rightarrow> packet list) \<Rightarrow> (content \<Rightarrow> summary list) \<Rightarrow> args \<Rightarrow> world \<Rightarrow> world \<times> outcome" where
  "main reader provider a w =
     (if fs w (pcap a) = None then
        (w\<lparr>stderr := stderr w @
              [''Input pcap file '' @ [CHR 0x22] @ pcap a @ [CHR 0x22] @ '' does not exist'']\<rparr>,
         Exited (- 1))
      else if fs w (csv a) \<noteq> None then
        (w\<lparr>stderr := stderr w @
              [''Output csv file '' @ [CHR 0x22] @ csv a @ [CHR 0x22] @
               '' already exists, won'' @ [CHR 0x27] @ ''t overwrite'']\<rparr>,
         Exited (- 1))
      else
        (case pcap2csv reader provider (pcap a) (csv a) w of
           (w', None) \<Rightarrow> (w', Exited 0)
         | (w', Some e) \<Rightarrow> (w', Uncaught e)))"

text \<open>
  A well-formed UDP or TCP packet: an IPv4 layer whose protocol field is 17 with a
  UDP layer under it, or 6 with a TCP layer under it.
\<close>

definition well_formed :: "packet \<Rightarrow> bool" where
  "well_formed pkt =
     (case getlayer_IP pkt of
        None \<Rightarrow> False
      | Some (proto, ip_payload) \<Rightarrow>
          (proto = 17 \<and> getlayer_UDP ip_payload \<noteq> None) \<or>
          (proto = 6 \<and> getlayer_TCP ip_payload \<noteq> None))"

subsection \<open>Example inputs\<close>

text \<open>
  A DNS query over UDP, a TCP segment with twelve option bytes and four bytes of
  data, an ARP request (no IPv4 layer) and an ICMP echo request (IPv4, protocol 1).
\<close>

definition ether_ipv4 :: layer where
  "ether_ipv4 = Ether [0x00, 0x11, 0x22, 0x33, 0x44, 0x55, 0x66, 0x77, 0x88, 0x99, 0xaa, 0xbb,
                        0x08, 0x00]"

definition dns_query :: packet where
  "dns_query =
     [ether_ipv4,
      IP 17 [0x45, 0x00, 0x00, 0x20, 0x00, 0x01, 0x00, 0x00, 0x40, 0x11, 0x66, 0xca,
             0x0a, 0x00, 0x00, 0x01, 0x0a, 0x00, 0x00, 0x02],
      UDP 1024 53 [0x04, 0x00, 0x00, 0x35, 0x00, 0x0c, 0x00, 0x00],
      Other [0xf3, 0xde, 0x01, 0x00]]"

definition tcp_segment :: packet where
  "tcp_segment =
     [ether_ipv4,
      IP 6 [0x45, 0x00, 0x00, 0x38, 0x00, 0x02, 0x00, 0x00, 0x40, 0x06, 0x66, 0xbc,
            0x0a, 0x00, 0x00, 0x01, 0x0a, 0x00, 0x00, 0x02],
      TCP 49152 443 [0xc0, 0x00, 0x01, 0xbb, 0x00, 0x00, 0x00, 0x01, 0x00, 0x00, 0x00, 0x00,
                     0x80, 0x18, 0x20, 0x00, 0x00, 0x00, 0x00, 0x00,
                     0x01, 0x01, 0x08, 0x0a, 0x00, 0x00, 0x00, 0x01, 0x00, 0x00, 0x00, 0x02],
      Other [0x16, 0x03, 0x01, 0x00]]"

definition arp_request :: packet where
  "arp_request =
     [Ether [0xff, 0xff, 0xff, 0xff, 0xff, 0xff, 0x66, 0x77, 0x88, 0x99, 0xaa, 0xbb,
             0x08, 0x06],
      Other [0x00, 0x01, 0x08, 0x00, 0x06, 0x04, 0x00, 0x01,
             0x66, 0x77, 0x88, 0x99, 0xaa, 0xbb, 0x0a, 0x00, 0x00, 0x01,
             0x00, 0x00, 0x00, 0x00, 0x00, 0x00, 0x0a, 0x00, 0x00, 0x02]]"

definition icmp_echo :: packet where
  "icmp_echo =
     [ether_ipv4,
      IP 1 [0x45, 0x00, 0x00, 0x1c, 0x00, 0x03, 0x00, 0x00, 0x40, 0x01, 0x66, 0xd8,
            0x0a, 0x00, 0x00, 0x01, 0x0a, 0x00, 0x00, 0x02],
      Other [0x08, 0x00, 0xf7, 0xff, 0x00, 0x00, 0x00, 0x00]]"

definition summary_of :: "string \<Rightarrow> string \<Rightarrow> string \<Rightarrow> string \<Rightarrow> summary" where
  "summary_of n proto text len =
     \<lparr>no = n, time = ''0.000000'', protocol = proto, info = text, source = ''10.0.0.1'',
      destination = ''10.0.0.2'', length_sh = len\<rparr>"

definition cmdline :: args where
  "cmdline = \<lparr>pcap = ''in.pcap'', csv = ''out.csv''\<rparr>"

definition disk :: world where
  "disk = \<lparr>fs = [''in.pcap'' \<mapsto> Data []], stdout = [], stderr = []\<rparr>"

subsection \<open>The header decoder\<close>

text \<open>
  Modelled from the spec: the Header Decoder of section 4.2, which turns the raw
  bytes of a record into the layers above. The script has no code for it (it calls
  scapy's \<^verbatim>\<open>Ether(pkt_sc)\<close>, which is not under \<^verbatim>\<open>src/\<close>). After the spec: a
  fixed-size Ethernet header of destination MAC, source MAC and a 2-byte ethertype;
  if the ethertype indicates IPv4, an IPv4 header whose header-length nibble
  locates the transport segment; for protocol 17 the fixed 8-byte UDP header, all
  following bytes being payload; for protocol 6 the TCP header, whose data-offset
  nibble locates the payload; any other protocol is kept with the rest of the
  bytes. Numeric fields are in network byte order, both nibbles count 32-bit
  words, a length that reaches beyond the buffer is a \<^verbatim>\<open>MalformedHeaderError\<close>, and
  a network layer other than IPv4 is an \<^verbatim>\<open>UnsupportedProtocolError\<close>.
\<close>

text \<open>Modelled from the spec: the two errors of the Header Decoder.\<close>

datatype decode_error = UnsupportedProtocolError | MalformedHeaderError

text \<open>Modelled from the spec: a 2-byte numeric field in network byte order.\<close>

definition be16 :: "8 word \<Rightarrow> 8 word \<Rightarrow> nat" where
  "be16 hi lo = 256 * unat hi + unat lo"

text \<open>
  Modelled from the spec: the length in bytes that the header-length nibble of the
  IPv4 header gives (the low nibble of the first byte after the Ethernet header).
\<close>

definition ip_header_length :: "bytes \<Rightarrow> nat" where
  "ip_header_length raw = 4 * (unat (raw ! 14) mod 16)"

text \<open>Modelled from the spec: where the transport segment starts in the record.\<close>

definition transport_start :: "bytes \<Rightarrow> nat" where
  "transport_start raw = 14 + ip_header_length raw"

text \<open>
  Modelled from the spec: the length in bytes that the data-offset nibble of the
  TCP header gives (the high nibble of its thirteenth byte).
\<close>

definition tcp_data_offset :: "bytes \<Rightarrow> nat" where
  "tcp_data_offset raw = 4 * (unat (raw ! (transport_start raw + 12)) div 16)"

text \<open>
  Modelled from the spec: the decoder itself, with every length checked against
  the buffer before the bytes it covers are read.
\<close>

definition decode_headers :: "bytes \<Rightarrow> decode_error + packet" where
  "decode_headers raw =
     (if length raw < 14 then Inl MalformedHeaderError
      else if be16 (raw ! 12) (raw ! 13) \<noteq> 0x0800 then Inl UnsupportedProtocolError
      else if length raw < 14 + 20 \<or> length raw < transport_start raw
      then Inl MalformedHeaderError
      else
        let t = transport_start raw;
            ether = Ether (take 14 raw);
            proto = unat (raw ! 23);
            ip = IP proto (take (ip_header_length raw) (drop 14 raw))
        in if proto = 17 then
             (if length raw < t + 8 then Inl MalformedHeaderError
              else Inr [ether, ip,
                        UDP (be16 (raw ! t) (raw ! (t + 1))) (be16 (raw ! (t + 2)) (raw ! (t + 3)))
                          (take 8 (drop t raw)),
                        Other (drop (t + 8) raw)])
           else if proto = 6 then
             (if length raw < t + 20 \<or> length raw < t + tcp_data_offset raw
              then Inl MalformedHeaderError
              else Inr [ether, ip,
                        TCP (be16 (raw ! t) (raw ! (t + 1))) (be16 (raw ! (t + 2)) (raw ! (t + 3)))
                          (take (tcp_data_offset raw) (drop t raw)),
                        Other (drop (t + tcp_data_offset raw) raw)])
           else Inr [ether, ip, Other (drop t raw)])"

section \<open>Properties\<close>

lemma render_csv_row_well_formed:
  "well_formed pkt \<Longrightarrow> \<exists>line. render_csv_row sh pkt = Inr line"
  by (auto simp: well_formed_def render_csv_row_def l4_locals_def split: option.splits)


subsection \<open>Text primitives\<close>

lemma str_nat_digits: "set (str_nat n) \<subseteq> set ''0123456789''"
proof (induction n rule: str_nat.induct)
  case (1 n)
  have d: "\<And>k. k < 10 \<Longrightarrow> digit k \<in> set ''0123456789''"
    unfolding digit_def by (rule nth_mem) simp
  show ?case
  proof (cases "n < 10")
    case True
    then show ?thesis using d [of n] by (subst str_nat.simps) simp
  next
    case False
    have "n mod 10 < 10" by simp
    with 1 False d [of "n mod 10"] show ?thesis by (subst str_nat.simps) simp
  qed
qed

lemma str_nat_no_bar: "CHR ''|'' \<notin> set (str_nat n)"
  using str_nat_digits [of n] by auto

lemma hexdigit_in: "k < 16 \<Longrightarrow> hexdigit k \<in> set ''0123456789abcdef''"
  unfolding hexdigit_def by (rule nth_mem) simp

lemma hex_chars: "set (hex bs) \<subseteq> set ''0123456789abcdef''"
proof -
  define H where "H = set ''0123456789abcdef''"
  have hi: "\<And>b :: 8 word. hexdigit (unat b div 16) \<in> H"
  proof -
    fix b :: "8 word"
    have "unat b < 256" using unsigned_less [of b, where ?'a = nat] by simp
    then have "unat b div 16 < 16" by simp
    then show "hexdigit (unat b div 16) \<in> H" unfolding H_def by (rule hexdigit_in)
  qed
  have lo: "\<And>b :: 8 word. hexdigit (unat b mod 16) \<in> H"
    unfolding H_def by (rule hexdigit_in) simp
  have "set (hex bs) \<subseteq> H"
    using hi lo by (auto simp: hex_def)
  then show ?thesis by (simp only: H_def)
qed

lemma hex_length: "length (hex bs) = 2 * length bs"
  by (induction bs) (simp_all add: hex_def)

subsection \<open>The loop\<close>

lemma pcap2csv_loop_no_summaries: "unread st = [] \<Longrightarrow> pcap2csv_loop caps st = st"
  by (cases caps) simp_all

text \<open>While every packet is a well-formed UDP or TCP packet, the loop writes one row
  for each pair of a packet and a summary.\<close>

lemma pcap2csv_loop_well_formed:
  "\<forall>p\<in>set caps. well_formed p \<Longrightarrow>
   raised (pcap2csv_loop caps st) = raised st \<and>
   frame_num (pcap2csv_loop caps st) = frame_num st + min (length caps) (length (unread st)) \<and>
   unread (pcap2csv_loop caps st) = drop (length caps) (unread st) \<and>
   map Inr (rows (pcap2csv_loop caps st)) =
     map Inr (rows st) @ map (\<lambda>(p, sh). render_csv_row sh p) (zip caps (unread st))"
proof (induction caps arbitrary: st)
  case Nil
  then show ?case by simp
next
  case (Cons p caps)
  show ?case
  proof (cases "unread st")
    case Nil
    then show ?thesis by simp
  next
    case (Cons sh later)
    from Cons.prems have "well_formed p" by simp
    then obtain line where line: "render_csv_row sh p = Inr line"
      using render_csv_row_well_formed by blast
    from Cons.prems have "\<forall>q\<in>set caps. well_formed q" by simp
    from Cons.IH [OF this, of "st\<lparr>rows := rows st @ [line], frame_num := frame_num st + 1, unread := later\<rparr>"]
    show ?thesis using Cons line by simp
  qed
qed

lemma pcap2csv_loop_append:
  "\<forall>p\<in>set pre. well_formed p \<Longrightarrow>
   pcap2csv_loop (pre @ post) st = pcap2csv_loop post (pcap2csv_loop pre st)"
proof (induction pre arbitrary: st)
  case Nil
  then show ?case by simp
next
  case (Cons p pre)
  show ?case
  proof (cases "unread st")
    case Nil
    then show ?thesis by (simp add: pcap2csv_loop_no_summaries)
  next
    case (Cons sh later)
    from Cons.prems have "well_formed p" by simp
    then obtain line where line: "render_csv_row sh p = Inr line"
      using render_csv_row_well_formed by blast
    from Cons.prems have "\<forall>q\<in>set pre. well_formed q" by simp
    from Cons.IH [OF this]
    show ?thesis using Cons line by simp
  qed
qed

text \<open>The packets beyond the provider's last summary have no effect.\<close>

lemma pcap2csv_loop_take:
  "pcap2csv_loop caps st = pcap2csv_loop (take (length (unread st)) caps) st"
proof (induction caps arbitrary: st)
  case Nil
  then show ?case by simp
next
  case (Cons p caps)
  show ?case
  proof (cases "unread st")
    case Nil
    then show ?thesis by simp
  next
    case (Cons sh later)
    show ?thesis
    proof (cases "render_csv_row sh p")
      case (Inl e)
      with Cons show ?thesis by simp
    next
      case (Inr line)
      from Cons.IH [of "st\<lparr>rows := rows st @ [line], frame_num := frame_num st + 1, unread := later\<rparr>"]
      show ?thesis using Cons Inr by simp
    qed
  qed
qed

text \<open>The loop takes at most one summary for each packet, from the front.\<close>

lemma pcap2csv_loop_unread:
  "\<exists>k\<le>length caps. unread (pcap2csv_loop caps st) = drop k (unread st)"
proof (induction caps arbitrary: st)
  case Nil
  then show ?case by simp
next
  case (Cons p caps)
  show ?case
  proof (cases "unread st")
    case Nil
    then show ?thesis by (intro exI [of _ 0]) simp
  next
    case (Cons sh later)
    show ?thesis
    proof (cases "render_csv_row sh p")
      case (Inl e)
      with Cons have "unread (pcap2csv_loop (p # caps) st) = drop 1 (unread st)" by simp
      then show ?thesis by (intro exI [of _ 1]) simp
    next
      case (Inr line)
      let ?st = "st\<lparr>rows := rows st @ [line], frame_num := frame_num st + 1, unread := later\<rparr>"
      from Cons.IH [of ?st] obtain k where k: "k \<le> length caps"
        "unread (pcap2csv_loop caps ?st) = drop k later" by auto
      with Cons Inr have "unread (pcap2csv_loop (p # caps) st) = drop (Suc k) (unread st)"
        by simp
      with k(1) show ?thesis by (intro exI [of _ "Suc k"]) simp
    qed
  qed
qed


subsection \<open>The whole program, once the two paths have passed the checks\<close>

lemma main_runs:
  assumes "fs w (pcap a) = Some f" and "fs w (csv a) = None"
  shows "main reader provider a w =
    (let st = pcap2csv_loop (reader f) (run0 (provider f));
         w' = w\<lparr>fs := (fs w)(csv a \<mapsto> Text (rows st))\<rparr>
     in case raised st of
          None \<Rightarrow> (w'\<lparr>stdout := stdout w @ [str_nat (frame_num st) @ '' packets read'']\<rparr>,
                   Exited 0)
        | Some e \<Rightarrow> (w', Uncaught e))"
  using assms by (simp add: main_def pcap2csv_def Let_def split: option.splits)

lemma str_nat_0: "str_nat 0 = ''0''"
  by (simp add: str_nat.simps digit_def)

lemma str_nat_small:
  "str_nat (Suc 0) = ''1''" "str_nat 1 = ''1''" "str_nat 2 = ''2''" "str_nat (Suc (Suc 0)) = ''2''"
  by (simp_all add: str_nat.simps digit_def)

text \<open>
  C8. If the input capture path does not exist or the output path already exists,
  the program exits with the non-zero status -1 before any packet is read: the
  result does not depend on the readers, no file is created or changed (so an
  existing output file is left as it was), and nothing is printed to the standard
  output.
\<close>

theorem main_refuses_missing_input_or_existing_output:
  assumes "fs w (pcap a) = None \<or> fs w (csv a) \<noteq> None"
  shows "snd (main reader provider a w) = Exited (- 1) \<and> Exited (- 1) \<noteq> Exited 0 \<and>
         fs (fst (main reader provider a w)) = fs w \<and>
         stdout (fst (main reader provider a w)) = stdout w \<and>
         main reader provider a w = main reader' provider' a w"
  using assms by (auto simp: main_def)

theorem main_refuses_existing_output_witness:
  "fs (disk\<lparr>fs := (fs disk)(''out.csv'' \<mapsto> Text [''old row''])\<rparr>) (csv cmdline) \<noteq> None \<and>
   snd (main (\<lambda>f. [dns_query]) (\<lambda>f. [summary_of ''1'' ''DNS'' ''Standard query'' ''46''])
          cmdline (disk\<lparr>fs := (fs disk)(''out.csv'' \<mapsto> Text [''old row''])\<rparr>)) = Exited (- 1) \<and>
   fs (fst (main (\<lambda>f. [dns_query]) (\<lambda>f. [summary_of ''1'' ''DNS'' ''Standard query'' ''46''])
          cmdline (disk\<lparr>fs := (fs disk)(''out.csv'' \<mapsto> Text [''old row''])\<rparr>))) ''out.csv'' =
     Some (Text [''old row''])"
proof -
  let ?w = "disk\<lparr>fs := (fs disk)(''out.csv'' \<mapsto> Text [''old row''])\<rparr>"
  have h: "fs ?w (pcap cmdline) = None \<or> fs ?w (csv cmdline) \<noteq> None"
    by (simp add: cmdline_def disk_def)
  from main_refuses_missing_input_or_existing_output [OF h]
  show ?thesis by (simp add: cmdline_def disk_def)
qed

text \<open>
  C10. For a capture with no packet records, whose path exists while the output
  path does not, the program creates the output file with zero rows, prints
  \<^verbatim>\<open>0 packets read\<close> and ends with status 0.
\<close>

theorem main_empty_capture:
  assumes "fs w (pcap a) = Some f" and "fs w (csv a) = None" and "reader f = []"
  shows "main reader provider a w =
           (w\<lparr>fs := (fs w)(csv a \<mapsto> Text []), stdout := stdout w @ [''0 packets read'']\<rparr>,
            Exited 0)"
  using assms by (simp add: main_runs run0_def str_nat_0)

theorem main_empty_capture_witness:
  "fs disk (pcap cmdline) = Some (Data []) \<and> fs disk (csv cmdline) = None \<and>
   main (\<lambda>f. []) (\<lambda>f. []) cmdline disk =
     (\<lparr>fs = [''in.pcap'' \<mapsto> Data [], ''out.csv'' \<mapsto> Text []], stdout = [''0 packets read''],
       stderr = []\<rparr>, Exited 0)"
proof -
  have h1: "fs disk (pcap cmdline) = Some (Data [])" by (simp add: cmdline_def disk_def)
  have h2: "fs disk (csv cmdline) = None" by (simp add: cmdline_def disk_def)
  have h3: "(\<lambda>f :: content. [] :: packet list) (Data []) = []" by simp
  from main_empty_capture [OF h1 h2 h3, of "\<lambda>f. []"] h1 h2
  show ?thesis by (simp add: cmdline_def disk_def)
qed


subsection \<open>The rows of the example packets\<close>

lemma render_dns_query:
  "render_csv_row (summary_of n proto text len) dns_query =
     Inr (n @ ''|0.000000|'' @ proto @ ''(UDP)|'' @ text @
          ''|10.0.0.1:1024|10.0.0.2:53|'' @ len @ ''|f3de0100'')"
  by (simp add: render_csv_row_def l4_locals_def dns_query_def ether_ipv4_def summary_of_def
      build_def hex_def hexdigit_def str_nat.simps digit_def)

lemma render_tcp_segment:
  "render_csv_row (summary_of n proto text len) tcp_segment =
     Inr (n @ ''|0.000000|'' @ proto @ ''(TCP)|'' @ text @
          ''|10.0.0.1:49152|10.0.0.2:443|'' @ len @ ''|16030100'')"
  by (simp add: render_csv_row_def l4_locals_def tcp_segment_def ether_ipv4_def summary_of_def
      build_def hex_def hexdigit_def str_nat.simps digit_def)

lemma render_arp_request: "render_csv_row sh arp_request = Inl IndexError"
  by (simp add: render_csv_row_def l4_locals_def arp_request_def)

lemma render_icmp_echo: "render_csv_row sh icmp_echo = Inl UnboundLocalError"
  by (simp add: render_csv_row_def l4_locals_def icmp_echo_def ether_ipv4_def)

lemma well_formed_dns_query: "well_formed dns_query"
  by (simp add: well_formed_def dns_query_def ether_ipv4_def)

lemma well_formed_tcp_segment: "well_formed tcp_segment"
  by (simp add: well_formed_def tcp_segment_def ether_ipv4_def)

lemma disk_paths:
  "fs disk (pcap cmdline) = Some (Data [])" "fs disk (csv cmdline) = None"
  by (simp_all add: cmdline_def disk_def)


subsection \<open>Provider and capture of different lengths\<close>

lemma rows_nth:
  assumes "map Inr rs = map (\<lambda>(p, sh). render_csv_row sh p) (zip caps sums)"
    and "i < length caps" and "i < length sums"
  shows "render_csv_row (sums ! i) (caps ! i) = Inr (rs ! i)"
proof -
  from assms(1) have len: "length rs = length (zip caps sums)"
    by (metis length_map)
  with assms(2,3) have i: "i < length rs" by simp
  have "map Inr rs ! i = map (\<lambda>(p, sh). render_csv_row sh p) (zip caps sums) ! i"
    using assms(1) by simp
  with i len assms(2,3) show ?thesis by simp
qed

text \<open>
  C9, as stated, fails: with one record, an ARP request, and two summaries, the run
  does not complete normally. It ends with an uncaught \<^verbatim>\<open>IndexError\<close>, no row and
  no count, although the provider has a summary to spare.
\<close>

theorem surplus_summaries_counterexample:
  "length [arp_request] < length [summary_of ''1'' ''ARP'' ''Who has 10.0.0.2?'' ''42'',
                                  summary_of ''2'' ''DNS'' ''Standard query'' ''46''] \<and>
   main (\<lambda>f. [arp_request])
        (\<lambda>f. [summary_of ''1'' ''ARP'' ''Who has 10.0.0.2?'' ''42'',
              summary_of ''2'' ''DNS'' ''Standard query'' ''46'']) cmdline disk =
     (\<lparr>fs = [''in.pcap'' \<mapsto> Data [], ''out.csv'' \<mapsto> Text []], stdout = [], stderr = []\<rparr>,
      Uncaught IndexError)"
proof -
  have "main (\<lambda>f. [arp_request])
          (\<lambda>f. [summary_of ''1'' ''ARP'' ''Who has 10.0.0.2?'' ''42'',
                summary_of ''2'' ''DNS'' ''Standard query'' ''46'']) cmdline disk =
        (let st = pcap2csv_loop [arp_request]
                    (run0 [summary_of ''1'' ''ARP'' ''Who has 10.0.0.2?'' ''42'',
                           summary_of ''2'' ''DNS'' ''Standard query'' ''46'']);
             w' = disk\<lparr>fs := (fs disk)(csv cmdline \<mapsto> Text (rows st))\<rparr>
         in case raised st of
              None \<Rightarrow> (w'\<lparr>stdout := stdout disk @ [str_nat (frame_num st) @ '' packets read'']\<rparr>,
                       Exited 0)
            | Some e \<Rightarrow> (w', Uncaught e))"
    by (rule main_runs [OF disk_paths])
  then show ?thesis
    by (simp add: Let_def run0_def render_arp_request disk_def cmdline_def)
qed

text \<open>
  C9, amended. When the provider has more summaries than the capture has records,
  the loop takes at most one summary per record, so the surplus is left unread in
  every run. When moreover every record is a well-formed UDP or TCP packet, the run
  ends normally (status 0): the output file holds one row per record, the count
  printed is the number of records, and exactly the surplus summaries are left
  unread.
\<close>

theorem surplus_summaries_not_consumed:
  assumes "fs w (pcap a) = Some f" and "fs w (csv a) = None"
    and "length (reader f) < length (provider f)"
  shows "(\<exists>k\<le>length (reader f).
            unread (pcap2csv_loop (reader f) (run0 (provider f))) = drop k (provider f)) \<and>
         unread (pcap2csv_loop (reader f) (run0 (provider f))) \<noteq> [] \<and>
         ((\<forall>p\<in>set (reader f). well_formed p) \<longrightarrow>
            main reader provider a w =
              (w\<lparr>fs := (fs w)(csv a \<mapsto> Text (rows (pcap2csv_loop (reader f) (run0 (provider f))))),
                 stdout := stdout w @ [str_nat (length (reader f)) @ '' packets read'']\<rparr>,
               Exited 0) \<and>
            length (rows (pcap2csv_loop (reader f) (run0 (provider f)))) = length (reader f) \<and>
            map Inr (rows (pcap2csv_loop (reader f) (run0 (provider f)))) =
              map (\<lambda>(p, sh). render_csv_row sh p) (zip (reader f) (provider f)) \<and>
            unread (pcap2csv_loop (reader f) (run0 (provider f))) =
              drop (length (reader f)) (provider f))"
proof -
  let ?st = "pcap2csv_loop (reader f) (run0 (provider f))"
  from pcap2csv_loop_unread [of "reader f" "run0 (provider f)"]
  obtain k where k: "k \<le> length (reader f)" "unread ?st = drop k (provider f)"
    by (auto simp: run0_def)
  with assms(3) have ne: "unread ?st \<noteq> []" by simp
  have wf: "main reader provider a w =
           (w\<lparr>fs := (fs w)(csv a \<mapsto> Text (rows ?st)),
              stdout := stdout w @ [str_nat (length (reader f)) @ '' packets read'']\<rparr>,
            Exited 0) \<and>
         length (rows ?st) = length (reader f) \<and>
         map Inr (rows ?st) = map (\<lambda>(p, sh). render_csv_row sh p) (zip (reader f) (provider f)) \<and>
         unread ?st = drop (length (reader f)) (provider f)"
    if all: "\<forall>p\<in>set (reader f). well_formed p"
  proof -
    from pcap2csv_loop_well_formed [OF all, of "run0 (provider f)"] assms(3)
    have st: "raised ?st = None" "frame_num ?st = length (reader f)"
      "unread ?st = drop (length (reader f)) (provider f)"
      "map Inr (rows ?st) = map (\<lambda>(p, sh). render_csv_row sh p) (zip (reader f) (provider f))"
      by (simp_all add: run0_def)
    from st(4) have "length (rows ?st) = length (zip (reader f) (provider f))"
      by (metis length_map)
    with assms(3) have len: "length (rows ?st) = length (reader f)" by simp
    have "main reader provider a w =
           (w\<lparr>fs := (fs w)(csv a \<mapsto> Text (rows ?st)),
              stdout := stdout w @ [str_nat (length (reader f)) @ '' packets read'']\<rparr>,
            Exited 0)"
      using st(1,2) by (simp add: main_runs [OF assms(1,2)] Let_def)
    with len st(3,4) show ?thesis by simp
  qed
  from k ne wf show ?thesis by blast
qed

theorem surplus_summaries_not_consumed_witness:
  "length [dns_query, tcp_segment] <
     length [summary_of ''1'' ''DNS'' ''Standard query'' ''46'',
             summary_of ''2'' ''TCP'' ''Seq=1 Len=4'' ''70'',
             summary_of ''3'' ''ARP'' ''Who has 10.0.0.2?'' ''42''] \<and>
   main (\<lambda>f. [dns_query, tcp_segment])
        (\<lambda>f. [summary_of ''1'' ''DNS'' ''Standard query'' ''46'',
              summary_of ''2'' ''TCP'' ''Seq=1 Len=4'' ''70'',
              summary_of ''3'' ''ARP'' ''Who has 10.0.0.2?'' ''42'']) cmdline disk =
     (\<lparr>fs = [''in.pcap'' \<mapsto> Data [],
             ''out.csv'' \<mapsto>
               Text [''1|0.000000|DNS(UDP)|Standard query|10.0.0.1:1024|10.0.0.2:53|46|f3de0100'',
                     ''2|0.000000|TCP(TCP)|Seq=1 Len=4|10.0.0.1:49152|10.0.0.2:443|70|16030100'']],
       stdout = [''2 packets read''], stderr = []\<rparr>, Exited 0) \<and>
   unread (pcap2csv_loop [dns_query, tcp_segment]
             (run0 [summary_of ''1'' ''DNS'' ''Standard query'' ''46'',
                    summary_of ''2'' ''TCP'' ''Seq=1 Len=4'' ''70'',
                    summary_of ''3'' ''ARP'' ''Who has 10.0.0.2?'' ''42''])) =
     [summary_of ''3'' ''ARP'' ''Who has 10.0.0.2?'' ''42'']"
proof -
  let ?R = "\<lambda>f :: content. [dns_query, tcp_segment]"
  let ?P = "\<lambda>f :: content. [summary_of ''1'' ''DNS'' ''Standard query'' ''46'',
                              summary_of ''2'' ''TCP'' ''Seq=1 Len=4'' ''70'',
                              summary_of ''3'' ''ARP'' ''Who has 10.0.0.2?'' ''42'']"
  have h3: "length (?R (Data [])) < length (?P (Data []))" by simp
  have h4: "\<forall>p\<in>set (?R (Data [])). well_formed p"
    by (simp add: well_formed_dns_query well_formed_tcp_segment)
  from surplus_summaries_not_consumed [of disk cmdline "Data []" ?R ?P, OF disk_paths h3] h4
  show ?thesis
    by (simp add: run0_def render_dns_query render_tcp_segment disk_def cmdline_def
        str_nat_small)
qed


text \<open>
  C1, as stated, fails: with two records and one summary the run ends with status 0,
  having written one row and printed \<^verbatim>\<open>1 packets read\<close>. No error is raised.
\<close>

theorem provider_underproduces_counterexample:
  "length [summary_of ''1'' ''DNS'' ''Standard query'' ''46''] < length [dns_query, tcp_segment] \<and>
   main (\<lambda>f. [dns_query, tcp_segment]) (\<lambda>f. [summary_of ''1'' ''DNS'' ''Standard query'' ''46''])
     cmdline disk =
     (\<lparr>fs = [''in.pcap'' \<mapsto> Data [],
             ''out.csv'' \<mapsto>
               Text [''1|0.000000|DNS(UDP)|Standard query|10.0.0.1:1024|10.0.0.2:53|46|f3de0100'']],
       stdout = [''1 packets read''], stderr = []\<rparr>, Exited 0)"
proof -
  have "main (\<lambda>f. [dns_query, tcp_segment])
          (\<lambda>f. [summary_of ''1'' ''DNS'' ''Standard query'' ''46'']) cmdline disk =
        (let st = pcap2csv_loop [dns_query, tcp_segment]
                    (run0 [summary_of ''1'' ''DNS'' ''Standard query'' ''46'']);
             w' = disk\<lparr>fs := (fs disk)(csv cmdline \<mapsto> Text (rows st))\<rparr>
         in case raised st of
              None \<Rightarrow> (w'\<lparr>stdout := stdout disk @ [str_nat (frame_num st) @ '' packets read'']\<rparr>,
                       Exited 0)
            | Some e \<Rightarrow> (w', Uncaught e))"
    by (rule main_runs [OF disk_paths])
  then show ?thesis
    by (simp add: Let_def run0_def render_dns_query disk_def cmdline_def str_nat_small)
qed

text \<open>
  C1, amended. When the provider has fewer summaries than the capture has records
  (and the records it does cover are well-formed UDP or TCP packets), the loop stops
  at the first record without a summary: the records after it are not processed, no
  error is raised, the run ends with status 0, the output file holds one row for
  each summary, and the count printed is the number of summaries.
\<close>

theorem provider_underproduces_stops_silently:
  assumes "fs w (pcap a) = Some f" and "fs w (csv a) = None"
    and "length (provider f) < length (reader f)"
    and "\<forall>p\<in>set (take (length (provider f)) (reader f)). well_formed p"
  shows "main reader provider a w =
           (w\<lparr>fs := (fs w)(csv a \<mapsto> Text (rows (pcap2csv_loop (reader f) (run0 (provider f))))),
              stdout := stdout w @ [str_nat (length (provider f)) @ '' packets read'']\<rparr>,
            Exited 0) \<and>
         length (rows (pcap2csv_loop (reader f) (run0 (provider f)))) = length (provider f) \<and>
         map Inr (rows (pcap2csv_loop (reader f) (run0 (provider f)))) =
           map (\<lambda>(p, sh). render_csv_row sh p) (zip (reader f) (provider f))"
proof -
  let ?st = "pcap2csv_loop (reader f) (run0 (provider f))"
  let ?pre = "take (length (provider f)) (reader f)"
  have eq: "?st = pcap2csv_loop ?pre (run0 (provider f))"
    using pcap2csv_loop_take [of "reader f" "run0 (provider f)"] by (simp add: run0_def)
  have "zip ?pre (provider f) = take (length (provider f)) (zip (reader f) (provider f))"
    by (simp add: take_zip)
  then have z: "zip ?pre (provider f) = zip (reader f) (provider f)"
    by simp
  from pcap2csv_loop_well_formed [OF assms(4), of "run0 (provider f)"] assms(3)
  have "raised ?st = None" "frame_num ?st = length (provider f)"
    "map Inr (rows ?st) = map (\<lambda>(p, sh). render_csv_row sh p) (zip ?pre (provider f))"
    unfolding eq by (simp_all add: run0_def)
  then have st: "raised ?st = None" "frame_num ?st = length (provider f)"
    "map Inr (rows ?st) = map (\<lambda>(p, sh). render_csv_row sh p) (zip (reader f) (provider f))"
    by (simp_all only: z)
  from st(3) have "length (rows ?st) = length (zip (reader f) (provider f))"
    by (metis length_map)
  with assms(3) have len: "length (rows ?st) = length (provider f)" by simp
  have "main reader provider a w =
           (w\<lparr>fs := (fs w)(csv a \<mapsto> Text (rows ?st)),
              stdout := stdout w @ [str_nat (length (provider f)) @ '' packets read'']\<rparr>,
            Exited 0)"
    using st(1,2) by (simp add: main_runs [OF assms(1,2)] Let_def)
  with len st(3) show ?thesis by simp
qed

theorem provider_underproduces_stops_silently_witness:
  "length [summary_of ''1'' ''TCP'' ''Seq=1 Len=4'' ''70''] < length [tcp_segment, arp_request] \<and>
   main (\<lambda>f. [tcp_segment, arp_request]) (\<lambda>f. [summary_of ''1'' ''TCP'' ''Seq=1 Len=4'' ''70''])
     cmdline disk =
     (\<lparr>fs = [''in.pcap'' \<mapsto> Data [],
             ''out.csv'' \<mapsto>
               Text [''1|0.000000|TCP(TCP)|Seq=1 Len=4|10.0.0.1:49152|10.0.0.2:443|70|16030100'']],
       stdout = [''1 packets read''], stderr = []\<rparr>, Exited 0)"
proof -
  let ?R = "\<lambda>f :: content. [tcp_segment, arp_request]"
  let ?P = "\<lambda>f :: content. [summary_of ''1'' ''TCP'' ''Seq=1 Len=4'' ''70'']"
  have h3: "length (?P (Data [])) < length (?R (Data []))" by simp
  have h4: "\<forall>p\<in>set (take (length (?P (Data []))) (?R (Data []))). well_formed p"
    by (simp add: well_formed_tcp_segment)
  from provider_underproduces_stops_silently [of disk cmdline "Data []" ?P ?R, OF disk_paths h3 h4]
  show ?thesis
    by (simp add: run0_def render_tcp_segment disk_def cmdline_def str_nat_small)
qed


subsection \<open>Frame numbers\<close>

lemma render_csv_row_starts:
  assumes "render_csv_row sh p = Inr line"
  shows "\<exists>tail. line = no sh @ CHR ''|'' # tail"
  using assms by (auto simp: render_csv_row_def split: sum.splits option.splits)

lemma render_csv_row_first_field:
  assumes "render_csv_row sh p = Inr line" and "CHR ''|'' \<notin> set (no sh)"
  shows "takeWhile (\<lambda>c. c \<noteq> CHR ''|'') line = no sh"
proof -
  from render_csv_row_starts [OF assms(1)] obtain tail where "line = no sh @ CHR ''|'' # tail"
    by blast
  with assms(2) show ?thesis
    by (auto simp: takeWhile_tail)
qed

text \<open>
  C5, as stated, fails on the numbering: one well-formed UDP packet and a provider
  with exactly one summary, whose frame number is 7. The output has one row, and
  its frame number field is 7, not 1.
\<close>

theorem rows_numbered_from_one_counterexample:
  "well_formed dns_query \<and>
   length [summary_of ''7'' ''DNS'' ''Standard query'' ''46''] = length [dns_query] \<and>
   main (\<lambda>f. [dns_query]) (\<lambda>f. [summary_of ''7'' ''DNS'' ''Standard query'' ''46''])
     cmdline disk =
     (\<lparr>fs = [''in.pcap'' \<mapsto> Data [],
             ''out.csv'' \<mapsto>
               Text [''7|0.000000|DNS(UDP)|Standard query|10.0.0.1:1024|10.0.0.2:53|46|f3de0100'']],
       stdout = [''1 packets read''], stderr = []\<rparr>, Exited 0) \<and>
   takeWhile (\<lambda>c. c \<noteq> CHR ''|'')
     ''7|0.000000|DNS(UDP)|Standard query|10.0.0.1:1024|10.0.0.2:53|46|f3de0100'' = ''7'' \<and>
   ''7'' \<noteq> str_nat 1"
proof -
  have "main (\<lambda>f. [dns_query]) (\<lambda>f. [summary_of ''7'' ''DNS'' ''Standard query'' ''46''])
          cmdline disk =
        (let st = pcap2csv_loop [dns_query]
                    (run0 [summary_of ''7'' ''DNS'' ''Standard query'' ''46'']);
             w' = disk\<lparr>fs := (fs disk)(csv cmdline \<mapsto> Text (rows st))\<rparr>
         in case raised st of
              None \<Rightarrow> (w'\<lparr>stdout := stdout disk @ [str_nat (frame_num st) @ '' packets read'']\<rparr>,
                       Exited 0)
            | Some e \<Rightarrow> (w', Uncaught e))"
    by (rule main_runs [OF disk_paths])
  then show ?thesis
    by (simp add: Let_def run0_def render_dns_query well_formed_dns_query disk_def cmdline_def
        str_nat_small)
qed

text \<open>
  C5, amended. For a capture of K well-formed UDP or TCP packets and a provider
  with exactly K summaries, the run ends normally with exactly K rows, and the
  frame number field of each row is the frame number its summary carries (the
  \<^verbatim>\<open>no\<close> column), copied as it is: row i starts with the number of summary i and
  a vertical bar. The script's own counter is not written to the rows. So the
  frame numbers of the rows are 1, ..., K, increasing by 1, when the provider
  numbers its summaries so.
\<close>

theorem rows_carry_provider_frame_numbers:
  assumes "fs w (pcap a) = Some f" and "fs w (csv a) = None"
    and "\<forall>p\<in>set (reader f). well_formed p"
    and "length (provider f) = length (reader f)"
  shows "main reader provider a w =
           (w\<lparr>fs := (fs w)(csv a \<mapsto> Text (rows (pcap2csv_loop (reader f) (run0 (provider f))))),
              stdout := stdout w @ [str_nat (length (reader f)) @ '' packets read'']\<rparr>,
            Exited 0) \<and>
         length (rows (pcap2csv_loop (reader f) (run0 (provider f)))) = length (reader f) \<and>
         (\<forall>i<length (reader f). \<exists>tail.
            rows (pcap2csv_loop (reader f) (run0 (provider f))) ! i =
              no (provider f ! i) @ CHR ''|'' # tail) \<and>
         ((\<forall>i<length (provider f). no (provider f ! i) = str_nat (Suc i)) \<longrightarrow>
          (\<forall>i<length (reader f).
             takeWhile (\<lambda>c. c \<noteq> CHR ''|'')
               (rows (pcap2csv_loop (reader f) (run0 (provider f))) ! i) = str_nat (Suc i)))"
proof -
  let ?st = "pcap2csv_loop (reader f) (run0 (provider f))"
  let ?first = "takeWhile (\<lambda>c. c \<noteq> CHR ''|'')"
  from pcap2csv_loop_well_formed [OF assms(3), of "run0 (provider f)"] assms(4)
  have st: "raised ?st = None" "frame_num ?st = length (reader f)"
    "map Inr (rows ?st) = map (\<lambda>(p, sh). render_csv_row sh p) (zip (reader f) (provider f))"
    by (simp_all add: run0_def)
  from st(3) have "length (rows ?st) = length (zip (reader f) (provider f))"
    by (metis length_map)
  with assms(4) have len: "length (rows ?st) = length (reader f)" by simp
  have m: "main reader provider a w =
           (w\<lparr>fs := (fs w)(csv a \<mapsto> Text (rows ?st)),
              stdout := stdout w @ [str_nat (length (reader f)) @ '' packets read'']\<rparr>,
            Exited 0)"
    using st(1,2) by (simp add: main_runs [OF assms(1,2)] Let_def)
  have r: "render_csv_row (provider f ! i) (reader f ! i) = Inr (rows ?st ! i)"
    if "i < length (reader f)" for i
    using that assms(4) by (intro rows_nth [OF st(3)]) simp_all
  have starts: "\<exists>tail. rows ?st ! i = no (provider f ! i) @ CHR ''|'' # tail"
    if "i < length (reader f)" for i
    by (rule render_csv_row_starts [OF r [OF that]])
  have fwd: "?first (rows ?st ! i) = str_nat (Suc i)"
    if i: "i < length (reader f)" and n: "no (provider f ! i) = str_nat (Suc i)" for i
  proof -
    from n have "CHR ''|'' \<notin> set (no (provider f ! i))" by (simp add: str_nat_no_bar)
    from render_csv_row_first_field [OF r [OF i] this] n show ?thesis by simp
  qed
  from m len starts fwd assms(4) show ?thesis by simp
qed

theorem rows_carry_provider_frame_numbers_witness:
  "length [summary_of ''1'' ''DNS'' ''Standard query'' ''46'',
           summary_of ''2'' ''TCP'' ''Seq=1 Len=4'' ''70''] = length [dns_query, tcp_segment] \<and>
   main (\<lambda>f. [dns_query, tcp_segment])
        (\<lambda>f. [summary_of ''1'' ''DNS'' ''Standard query'' ''46'',
              summary_of ''2'' ''TCP'' ''Seq=1 Len=4'' ''70'']) cmdline disk =
     (\<lparr>fs = [''in.pcap'' \<mapsto> Data [],
             ''out.csv'' \<mapsto>
               Text [''1|0.000000|DNS(UDP)|Standard query|10.0.0.1:1024|10.0.0.2:53|46|f3de0100'',
                     ''2|0.000000|TCP(TCP)|Seq=1 Len=4|10.0.0.1:49152|10.0.0.2:443|70|16030100'']],
       stdout = [''2 packets read''], stderr = []\<rparr>, Exited 0) \<and>
   takeWhile (\<lambda>c. c \<noteq> CHR ''|'')
     (rows (pcap2csv_loop [dns_query, tcp_segment]
        (run0 [summary_of ''1'' ''DNS'' ''Standard query'' ''46'',
               summary_of ''2'' ''TCP'' ''Seq=1 Len=4'' ''70''])) ! 1) = str_nat 2"
proof -
  let ?R = "\<lambda>f :: content. [dns_query, tcp_segment]"
  let ?P = "\<lambda>f :: content. [summary_of ''1'' ''DNS'' ''Standard query'' ''46'',
                              summary_of ''2'' ''TCP'' ''Seq=1 Len=4'' ''70'']"
  have h3: "\<forall>p\<in>set (?R (Data [])). well_formed p"
    by (simp add: well_formed_dns_query well_formed_tcp_segment)
  have h4: "length (?P (Data [])) = length (?R (Data []))" by simp
  have h5: "\<forall>i<length (?P (Data [])). no (?P (Data []) ! i) = str_nat (Suc i)"
    by (auto simp: less_Suc_eq summary_of_def str_nat_small)
  from rows_carry_provider_frame_numbers [of disk cmdline "Data []" ?R ?P, OF disk_paths h3 h4] h5
  have "main ?R ?P cmdline disk =
          (disk\<lparr>fs := (fs disk)(csv cmdline \<mapsto> Text (rows (pcap2csv_loop (?R (Data [])) (run0 (?P (Data [])))))),
              stdout := stdout disk @ [str_nat (length (?R (Data []))) @ '' packets read'']\<rparr>,
           Exited 0)"
    and "takeWhile (\<lambda>c. c \<noteq> CHR ''|'')
           (rows (pcap2csv_loop (?R (Data [])) (run0 (?P (Data [])))) ! 1) = str_nat (Suc 1)"
    by simp_all
  then show ?thesis
    by (simp add: run0_def render_dns_query render_tcp_segment disk_def cmdline_def str_nat_small)
qed


subsection \<open>Records the script cannot render\<close>

text \<open>
  C3, as stated, fails: an ARP request followed by a DNS query, with a summary for
  each, ends the run with an uncaught \<^verbatim>\<open>IndexError\<close>. The output file is created
  but the row of the DNS query is never written, and no count is printed.
\<close>

theorem record_without_ipv4_counterexample:
  "main (\<lambda>f. [arp_request, dns_query])
        (\<lambda>f. [summary_of ''1'' ''ARP'' ''Who has 10.0.0.2?'' ''42'',
              summary_of ''2'' ''DNS'' ''Standard query'' ''46'']) cmdline disk =
     (\<lparr>fs = [''in.pcap'' \<mapsto> Data [], ''out.csv'' \<mapsto> Text []], stdout = [], stderr = []\<rparr>,
      Uncaught IndexError)"
proof -
  have "main (\<lambda>f. [arp_request, dns_query])
          (\<lambda>f. [summary_of ''1'' ''ARP'' ''Who has 10.0.0.2?'' ''42'',
                summary_of ''2'' ''DNS'' ''Standard query'' ''46'']) cmdline disk =
        (let st = pcap2csv_loop [arp_request, dns_query]
                    (run0 [summary_of ''1'' ''ARP'' ''Who has 10.0.0.2?'' ''42'',
                           summary_of ''2'' ''DNS'' ''Standard query'' ''46'']);
             w' = disk\<lparr>fs := (fs disk)(csv cmdline \<mapsto> Text (rows st))\<rparr>
         in case raised st of
              None \<Rightarrow> (w'\<lparr>stdout := stdout disk @ [str_nat (frame_num st) @ '' packets read'']\<rparr>,
                       Exited 0)
            | Some e \<Rightarrow> (w', Uncaught e))"
    by (rule main_runs [OF disk_paths])
  then show ?thesis
    by (simp add: Let_def run0_def render_arp_request disk_def cmdline_def)
qed

text \<open>
  C3, amended. A record whose dissection has no IPv4 layer makes
  \<^verbatim>\<open>render_csv_row\<close> raise \<^verbatim>\<open>IndexError\<close>, which nothing catches: the run ends
  there with that exception. The record does not appear in the output, the rows of
  the (well-formed) records before it stay written, the records after it are not
  processed, and no count is printed.
\<close>

theorem record_without_ipv4_aborts_run:
  assumes "fs w (pcap a) = Some f" and "fs w (csv a) = None"
    and "reader f = pre @ p # post"
    and "\<forall>q\<in>set pre. well_formed q"
    and "length pre < length (provider f)"
    and "getlayer_IP p = None"
  shows "main reader provider a w =
           (w\<lparr>fs := (fs w)(csv a \<mapsto> Text (rows (pcap2csv_loop pre (run0 (provider f)))))\<rparr>,
            Uncaught IndexError) \<and>
         length (rows (pcap2csv_loop pre (run0 (provider f)))) = length pre \<and>
         map Inr (rows (pcap2csv_loop pre (run0 (provider f)))) =
           map (\<lambda>(q, sh). render_csv_row sh q) (zip pre (provider f))"
proof -
  let ?st1 = "pcap2csv_loop pre (run0 (provider f))"
  let ?st = "pcap2csv_loop (reader f) (run0 (provider f))"
  from pcap2csv_loop_well_formed [OF assms(4), of "run0 (provider f)"]
  have st1: "raised ?st1 = None" "unread ?st1 = drop (length pre) (provider f)"
    "map Inr (rows ?st1) = map (\<lambda>(q, sh). render_csv_row sh q) (zip pre (provider f))"
    by (simp_all add: run0_def)
  from st1(3) have "length (rows ?st1) = length (zip pre (provider f))"
    by (metis length_map)
  with assms(5) have len: "length (rows ?st1) = length pre" by simp
  from assms(5) obtain sh later where u: "unread ?st1 = sh # later"
    unfolding st1(2) by (cases "drop (length pre) (provider f)") simp_all
  have r: "render_csv_row sh p = Inl IndexError"
    using assms(6) by (simp add: render_csv_row_def l4_locals_def)
  have "?st = pcap2csv_loop (p # post) ?st1"
    unfolding assms(3) by (rule pcap2csv_loop_append [OF assms(4)])
  also have "\<dots> = ?st1\<lparr>frame_num := frame_num ?st1 + 1, unread := later, raised := Some IndexError\<rparr>"
    using u r by simp
  finally have st: "raised ?st = Some IndexError" "rows ?st = rows ?st1"
    by simp_all
  have "main reader provider a w =
          (w\<lparr>fs := (fs w)(csv a \<mapsto> Text (rows ?st1))\<rparr>, Uncaught IndexError)"
    using st by (simp add: main_runs [OF assms(1,2)] Let_def)
  with len st1(3) show ?thesis by simp
qed

theorem record_without_ipv4_aborts_run_witness:
  "length [dns_query] < length [summary_of ''1'' ''DNS'' ''Standard query'' ''46'',
                                summary_of ''2'' ''ARP'' ''Who has 10.0.0.2?'' ''42'',
                                summary_of ''3'' ''TCP'' ''Seq=1 Len=4'' ''70''] \<and>
   getlayer_IP arp_request = None \<and>
   main (\<lambda>f. [dns_query, arp_request, tcp_segment])
        (\<lambda>f. [summary_of ''1'' ''DNS'' ''Standard query'' ''46'',
              summary_of ''2'' ''ARP'' ''Who has 10.0.0.2?'' ''42'',
              summary_of ''3'' ''TCP'' ''Seq=1 Len=4'' ''70'']) cmdline disk =
     (\<lparr>fs = [''in.pcap'' \<mapsto> Data [],
             ''out.csv'' \<mapsto>
               Text [''1|0.000000|DNS(UDP)|Standard query|10.0.0.1:1024|10.0.0.2:53|46|f3de0100'']],
       stdout = [], stderr = []\<rparr>, Uncaught IndexError)"
proof -
  let ?R = "\<lambda>f :: content. [dns_query, arp_request, tcp_segment]"
  let ?P = "\<lambda>f :: content. [summary_of ''1'' ''DNS'' ''Standard query'' ''46'',
                              summary_of ''2'' ''ARP'' ''Who has 10.0.0.2?'' ''42'',
                              summary_of ''3'' ''TCP'' ''Seq=1 Len=4'' ''70'']"
  have h3: "?R (Data []) = [dns_query] @ arp_request # [tcp_segment]" by simp
  have h4: "\<forall>q\<in>set [dns_query]. well_formed q" by (simp add: well_formed_dns_query)
  have h5: "length [dns_query] < length (?P (Data []))" by simp
  have h6: "getlayer_IP arp_request = None" by (simp add: arp_request_def)
  from record_without_ipv4_aborts_run [of disk cmdline "Data []" ?R, OF disk_paths h3 h4 h5 h6] h6
  show ?thesis
    by (simp add: run0_def render_dns_query disk_def cmdline_def)
qed


text \<open>
  C2: the code at a packet whose IPv4 protocol field is 1 (ICMP). The \<^verbatim>\<open>else\<close>
  branch sets the one-byte payload and the name \<^verbatim>\<open>???\<close> but leaves both ports
  unbound, so formatting the row raises \<^verbatim>\<open>UnboundLocalError\<close>: no row is written
  and the run ends with that exception.
\<close>

theorem unknown_transport_raises:
  "l4_locals icmp_echo =
     Inr \<lparr>l4_payload_bytes = [0], l4_proto_name = ''???'', l4_sport = None, l4_dport = None\<rparr> \<and>
   render_csv_row (summary_of ''1'' ''ICMP'' ''Echo (ping) request'' ''42'') icmp_echo =
     Inl UnboundLocalError \<and>
   main (\<lambda>f. [icmp_echo]) (\<lambda>f. [summary_of ''1'' ''ICMP'' ''Echo (ping) request'' ''42''])
     cmdline disk =
     (\<lparr>fs = [''in.pcap'' \<mapsto> Data [], ''out.csv'' \<mapsto> Text []], stdout = [], stderr = []\<rparr>,
      Uncaught UnboundLocalError)"
proof -
  have "main (\<lambda>f. [icmp_echo]) (\<lambda>f. [summary_of ''1'' ''ICMP'' ''Echo (ping) request'' ''42''])
          cmdline disk =
        (let st = pcap2csv_loop [icmp_echo]
                    (run0 [summary_of ''1'' ''ICMP'' ''Echo (ping) request'' ''42'']);
             w' = disk\<lparr>fs := (fs disk)(csv cmdline \<mapsto> Text (rows st))\<rparr>
         in case raised st of
              None \<Rightarrow> (w'\<lparr>stdout := stdout disk @ [str_nat (frame_num st) @ '' packets read'']\<rparr>,
                       Exited 0)
            | Some e \<Rightarrow> (w', Uncaught e))"
    by (rule main_runs [OF disk_paths])
  then have "main (\<lambda>f. [icmp_echo])
               (\<lambda>f. [summary_of ''1'' ''ICMP'' ''Echo (ping) request'' ''42'']) cmdline disk =
             (\<lparr>fs = [''in.pcap'' \<mapsto> Data [], ''out.csv'' \<mapsto> Text []], stdout = [],
               stderr = []\<rparr>, Uncaught UnboundLocalError)"
    by (simp add: Let_def run0_def render_icmp_echo disk_def cmdline_def)
  moreover have "l4_locals icmp_echo =
     Inr \<lparr>l4_payload_bytes = [0], l4_proto_name = ''???'', l4_sport = None, l4_dport = None\<rparr>"
    by (simp add: l4_locals_def icmp_echo_def ether_ipv4_def)
  ultimately show ?thesis by (simp add: render_icmp_echo)
qed

subsection \<open>Rows and the printed count\<close>





subsection \<open>The format of a row\<close>

text \<open>
  C6, as stated, fails on the separator: the row of the DNS query is not its eleven
  fields joined by vertical bars. The transport kind follows the protocol label in
  parentheses and each port follows its address after a colon, so the row has
  eight bar-separated columns.
\<close>

theorem row_format_counterexample:
  "render_csv_row (summary_of ''1'' ''DNS'' ''Standard query'' ''46'') dns_query =
     Inr ''1|0.000000|DNS(UDP)|Standard query|10.0.0.1:1024|10.0.0.2:53|46|f3de0100'' \<and>
   render_csv_row (summary_of ''1'' ''DNS'' ''Standard query'' ''46'') dns_query \<noteq>
     Inr ''1|0.000000|DNS|UDP|Standard query|10.0.0.1|1024|10.0.0.2|53|46|f3de0100'' \<and>
   length (filter (\<lambda>c. c = CHR ''|'')
     ''1|0.000000|DNS(UDP)|Standard query|10.0.0.1:1024|10.0.0.2:53|46|f3de0100'') = 7"
  by (simp add: render_dns_query)

text \<open>
  C6, amended. Every emitted row holds, in this order, the frame number, the
  timestamp, the protocol label, the transport kind (\<^verbatim>\<open>UDP\<close> or \<^verbatim>\<open>TCP\<close>), the info
  text, the source address, the source port, the destination address, the
  destination port, the frame length and the payload. A vertical bar separates the
  columns; the transport kind is joined to the protocol label in parentheses and
  each port to its address by a colon. The payload is two lowercase hexadecimal
  digits for each byte of \<^verbatim>\<open>l4_payload_bytes\<close>.
\<close>

theorem row_format:
  assumes "render_csv_row sh pkt = Inr row"
  shows "\<exists>v sport dport.
           l4_locals pkt = Inr v \<and> l4_sport v = Some sport \<and> l4_dport v = Some dport \<and>
           (l4_proto_name v = ''UDP'' \<or> l4_proto_name v = ''TCP'') \<and>
           row = no sh @ ''|'' @ time sh @ ''|'' @ protocol sh @ ''('' @ l4_proto_name v @ '')|'' @
                 info sh @ ''|'' @ source sh @ '':'' @ str_nat sport @ ''|'' @
                 destination sh @ '':'' @ str_nat dport @ ''|'' @ length_sh sh @ ''|'' @
                 hex (l4_payload_bytes v) \<and>
           set (hex (l4_payload_bytes v)) \<subseteq> set ''0123456789abcdef'' \<and>
           length (hex (l4_payload_bytes v)) = 2 * length (l4_payload_bytes v)"
proof -
  from assms obtain v sport dport where v: "l4_locals pkt = Inr v"
    "l4_sport v = Some sport" "l4_dport v = Some dport"
    and row: "row = no sh @ ''|'' @ time sh @ ''|'' @ protocol sh @ ''('' @ l4_proto_name v @
                '')|'' @ info sh @ ''|'' @ source sh @ '':'' @ str_nat sport @ ''|'' @
                destination sh @ '':'' @ str_nat dport @ ''|'' @ length_sh sh @ ''|'' @
                hex (l4_payload_bytes v)"
    by (auto simp: render_csv_row_def split: sum.splits option.splits)
  from v have name: "l4_proto_name v = ''UDP'' \<or> l4_proto_name v = ''TCP''"
    by (auto simp: l4_locals_def split: option.splits if_splits)
  from v row name hex_chars [of "l4_payload_bytes v"] hex_length [of "l4_payload_bytes v"]
  show ?thesis by blast
qed

theorem row_format_witness:
  "render_csv_row (summary_of ''7'' ''TLSv1'' ''Client Hello'' ''70'') tcp_segment =
     Inr ''7|0.000000|TLSv1(TCP)|Client Hello|10.0.0.1:49152|10.0.0.2:443|70|16030100'' \<and>
   (\<exists>v sport dport.
      l4_locals tcp_segment = Inr v \<and> l4_sport v = Some sport \<and> l4_dport v = Some dport \<and>
      ''7|0.000000|TLSv1(TCP)|Client Hello|10.0.0.1:49152|10.0.0.2:443|70|16030100'' =
        ''7|0.000000|TLSv1('' @ l4_proto_name v @ '')|Client Hello|10.0.0.1:'' @ str_nat sport @
        ''|10.0.0.2:'' @ str_nat dport @ ''|70|'' @ hex (l4_payload_bytes v))"
proof -
  have h: "render_csv_row (summary_of ''7'' ''TLSv1'' ''Client Hello'' ''70'') tcp_segment =
             Inr ''7|0.000000|TLSv1(TCP)|Client Hello|10.0.0.1:49152|10.0.0.2:443|70|16030100''"
    by (simp add: render_tcp_segment)
  from row_format [OF h] obtain v sport dport where
    "l4_locals tcp_segment = Inr v" "l4_sport v = Some sport" "l4_dport v = Some dport"
    "''7|0.000000|TLSv1(TCP)|Client Hello|10.0.0.1:49152|10.0.0.2:443|70|16030100'' =
        ''7|0.000000|TLSv1('' @ l4_proto_name v @ '')|Client Hello|10.0.0.1:'' @ str_nat sport @
        ''|10.0.0.2:'' @ str_nat dport @ ''|70|'' @ hex (l4_payload_bytes v)"
    by (auto simp: summary_of_def)
  with h show ?thesis by blast
qed


subsection \<open>TCP options\<close>

lemma build_tcp_segment:
  "build tcp_segment =
     [0x00, 0x11, 0x22, 0x33, 0x44, 0x55, 0x66, 0x77, 0x88, 0x99, 0xaa, 0xbb, 0x08, 0x00,
      0x45, 0x00, 0x00, 0x38, 0x00, 0x02, 0x00, 0x00, 0x40, 0x06, 0x66, 0xbc,
      0x0a, 0x00, 0x00, 0x01, 0x0a, 0x00, 0x00, 0x02,
      0xc0, 0x00, 0x01, 0xbb, 0x00, 0x00, 0x00, 0x01, 0x00, 0x00, 0x00, 0x00,
      0x80, 0x18, 0x20, 0x00, 0x00, 0x00, 0x00, 0x00,
      0x01, 0x01, 0x08, 0x0a, 0x00, 0x00, 0x00, 0x01, 0x00, 0x00, 0x00, 0x02,
      0x16, 0x03, 0x01, 0x00]"
  by (simp add: build_def tcp_segment_def ether_ipv4_def)

lemma tcp_segment_offsets:
  "ip_header_length (build tcp_segment) = 20" "transport_start (build tcp_segment) = 34"
  "tcp_data_offset (build tcp_segment) = 32"
  by (simp_all add: build_tcp_segment ip_header_length_def transport_start_def
      tcp_data_offset_def)

lemma decode_tcp_segment: "decode_headers (build tcp_segment) = Inr tcp_segment"
proof -
  have "decode_headers (build tcp_segment) =
     Inr [Ether [0x00, 0x11, 0x22, 0x33, 0x44, 0x55, 0x66, 0x77, 0x88, 0x99, 0xaa, 0xbb,
                 0x08, 0x00],
          IP 6 [0x45, 0x00, 0x00, 0x38, 0x00, 0x02, 0x00, 0x00, 0x40, 0x06, 0x66, 0xbc,
                0x0a, 0x00, 0x00, 0x01, 0x0a, 0x00, 0x00, 0x02],
          TCP 49152 443 [0xc0, 0x00, 0x01, 0xbb, 0x00, 0x00, 0x00, 0x01, 0x00, 0x00, 0x00, 0x00,
                         0x80, 0x18, 0x20, 0x00, 0x00, 0x00, 0x00, 0x00,
                         0x01, 0x01, 0x08, 0x0a, 0x00, 0x00, 0x00, 0x01, 0x00, 0x00, 0x00, 0x02],
          Other [0x16, 0x03, 0x01, 0x00]]"
    unfolding decode_headers_def tcp_segment_offsets Let_def
    by (simp add: build_tcp_segment be16_def)
  then show ?thesis by (simp add: tcp_segment_def ether_ipv4_def)
qed

text \<open>
  C7. For the raw bytes of a TCP packet whose data-offset field gives a header
  longer than 20 bytes, the payload field of the row is the hexadecimal encoding
  of exactly the bytes after the TCP header of that length: the record is its
  headers up to the end of the fixed TCP header, then the option bytes, then the
  payload, and the option bytes (at least one) are not part of the payload.
\<close>

theorem tcp_payload_skips_options:
  assumes "decode_headers raw = Inr pkt"
    and "unat (raw ! 23) = 6"
    and "20 < tcp_data_offset raw"
  shows "render_csv_row sh pkt =
           Inr (no sh @ ''|'' @ time sh @ ''|'' @ protocol sh @ ''(TCP)|'' @ info sh @ ''|'' @
                source sh @ '':'' @
                str_nat (be16 (raw ! transport_start raw) (raw ! (transport_start raw + 1))) @
                ''|'' @ destination sh @ '':'' @
                str_nat (be16 (raw ! (transport_start raw + 2)) (raw ! (transport_start raw + 3))) @
                ''|'' @ length_sh sh @ ''|'' @
                hex (drop (transport_start raw + tcp_data_offset raw) raw)) \<and>
         raw = take (transport_start raw + 20) raw @
               take (tcp_data_offset raw - 20) (drop (transport_start raw + 20) raw) @
               drop (transport_start raw + tcp_data_offset raw) raw \<and>
         length (take (tcp_data_offset raw - 20) (drop (transport_start raw + 20) raw)) =
           tcp_data_offset raw - 20 \<and>
         0 < tcp_data_offset raw - 20"
proof -
  let ?t = "transport_start raw"
  let ?d = "tcp_data_offset raw"
  from assms(1,2) have bound: "?t + ?d \<le> length raw"
    and pkt: "pkt = [Ether (take 14 raw), IP 6 (take (ip_header_length raw) (drop 14 raw)),
                     TCP (be16 (raw ! ?t) (raw ! (?t + 1))) (be16 (raw ! (?t + 2)) (raw ! (?t + 3)))
                       (take ?d (drop ?t raw)),
                     Other (drop (?t + ?d) raw)]"
    by (auto simp: decode_headers_def Let_def split: if_splits)
  have row: "render_csv_row sh pkt =
           Inr (no sh @ ''|'' @ time sh @ ''|'' @ protocol sh @ ''(TCP)|'' @ info sh @ ''|'' @
                source sh @ '':'' @ str_nat (be16 (raw ! ?t) (raw ! (?t + 1))) @
                ''|'' @ destination sh @ '':'' @
                str_nat (be16 (raw ! (?t + 2)) (raw ! (?t + 3))) @
                ''|'' @ length_sh sh @ ''|'' @ hex (drop (?t + ?d) raw))"
    unfolding pkt by (simp add: render_csv_row_def l4_locals_def build_def)
  from assms(3) have "?d - 20 + (?t + 20) = ?t + ?d" by simp
  then have "drop (?d - 20) (drop (?t + 20) raw) = drop (?t + ?d) raw"
    by (simp only: drop_drop)
  then have "take (?d - 20) (drop (?t + 20) raw) @ drop (?t + ?d) raw = drop (?t + 20) raw"
    using append_take_drop_id [of "?d - 20" "drop (?t + 20) raw"] by simp
  then have split: "raw = take (?t + 20) raw @ take (?d - 20) (drop (?t + 20) raw) @
                          drop (?t + ?d) raw"
    by simp
  from bound assms(3) have len: "length (take (?d - 20) (drop (?t + 20) raw)) = ?d - 20"
    by simp
  from row split len assms(3) show ?thesis by simp
qed

theorem tcp_payload_skips_options_witness:
  "decode_headers (build tcp_segment) = Inr tcp_segment \<and>
   20 < tcp_data_offset (build tcp_segment) \<and>
   render_csv_row (summary_of ''1'' ''TCP'' ''Seq=1 Len=4'' ''70'') tcp_segment =
     Inr ''1|0.000000|TCP(TCP)|Seq=1 Len=4|10.0.0.1:49152|10.0.0.2:443|70|16030100'' \<and>
   take (tcp_data_offset (build tcp_segment) - 20)
     (drop (transport_start (build tcp_segment) + 20) (build tcp_segment)) =
     [0x01, 0x01, 0x08, 0x0a, 0x00, 0x00, 0x00, 0x01, 0x00, 0x00, 0x00, 0x02] \<and>
   drop (transport_start (build tcp_segment) + tcp_data_offset (build tcp_segment))
     (build tcp_segment) = [0x16, 0x03, 0x01, 0x00]"
proof -
  have h2: "unat (build tcp_segment ! 23) = 6" by (simp add: build_tcp_segment)
  have h3: "20 < tcp_data_offset (build tcp_segment)" by (simp add: tcp_segment_offsets)
  from tcp_payload_skips_options [OF decode_tcp_segment h2 h3,
      of "summary_of ''1'' ''TCP'' ''Seq=1 Len=4'' ''70''"]
  have "render_csv_row (summary_of ''1'' ''TCP'' ''Seq=1 Len=4'' ''70'') tcp_segment =
          Inr (''1|0.000000|TCP(TCP)|Seq=1 Len=4|10.0.0.1:'' @
               str_nat (be16 (build tcp_segment ! 34) (build tcp_segment ! 35)) @ ''|10.0.0.2:'' @
               str_nat (be16 (build tcp_segment ! 36) (build tcp_segment ! 37)) @ ''|70|'' @
               hex (drop 66 (build tcp_segment)))"
    by (simp add: tcp_segment_offsets summary_of_def)
  moreover have "take (tcp_data_offset (build tcp_segment) - 20)
       (drop (transport_start (build tcp_segment) + 20) (build tcp_segment)) =
     [0x01, 0x01, 0x08, 0x0a, 0x00, 0x00, 0x00, 0x01, 0x00, 0x00, 0x00, 0x02]"
    unfolding tcp_segment_offsets by (simp add: build_tcp_segment)
  moreover have "drop (transport_start (build tcp_segment) + tcp_data_offset (build tcp_segment))
     (build tcp_segment) = [0x16, 0x03, 0x01, 0x00]"
    unfolding tcp_segment_offsets by (simp add: build_tcp_segment)
  ultimately show ?thesis
    using decode_tcp_segment h3 by (simp add: render_tcp_segment)
qed

end
